theory Spec2Isabelle
  imports Main "HOL-Library.AList" "HOL-Library.Sublist"
begin

section \<open>Stream access control of zerver/lib/streams.py\<close>

subsection \<open>Data model\<close>

text \<open>
  The rows the module reads. Python's unbounded integers are \<open>int\<close>, \<open>Text\<close> is
  \<open>string\<close>. A Django model instance is a record of the columns the module looks at;
  the foreign key \<open>Subscription.user_profile\<close> is only ever compared by primary key, so
  the row keeps the key, while \<open>sub.recipient.type_id\<close> reads through the related
  object, so the row keeps the \<open>Recipient\<close> it points to.
\<close>

text \<open>Modelled from the spec: the kinds of recipient of zerver/models.py (the first
  argument of \<open>get_recipient\<close> and \<open>bulk_get_recipients\<close>), of which the module uses
  \<open>Recipient.STREAM\<close>.\<close>

datatype recipient_type = PERSONAL | STREAM | HUDDLE

record UserProfile =
  user_id :: int
  user_realm_id :: int

record Stream =
  stream_id :: int
  stream_realm_id :: int
  name :: string
  invite_only :: bool

record Recipient =
  recipient_id :: int
  rtype :: recipient_type
  type_id :: int

record Subscription =
  user_profile_id :: int
  recipient :: Recipient
  active :: bool

text \<open>The tables of the persistence layer, in row order. The field of the stream table
  is \<open>stream_rows\<close>, since \<open>streams\<close> is the argument of \<open>filter_stream_authorization\<close>.\<close>

record database =
  stream_rows :: "Stream list"
  recipients :: "Recipient list"
  subscriptions :: "Subscription list"

subsection \<open>Exceptions\<close>

text \<open>
  \<open>JsonableError\<close> is the module's one error kind (the spec's AccessDenied); the other
  two are what Django's \<open>Model.objects.get\<close> raises, tagged with the model class, since
  \<open>except Subscription.DoesNotExist\<close> catches the subscription's only.
\<close>

datatype model = StreamModel | RecipientModel | SubscriptionModel

datatype exn =
    JsonableError string
  | DoesNotExist model
  | MultipleObjectsReturned model

text \<open>\<open>Model.objects.get(...)\<close>: the one row that matches, or an exception.\<close>

definition objects_get :: "model \<Rightarrow> ('a \<Rightarrow> bool) \<Rightarrow> 'a list \<Rightarrow> exn + 'a" where
  "objects_get m P rows =
     (case filter P rows of
        [] \<Rightarrow> Inl (DoesNotExist m)
      | [x] \<Rightarrow> Inr x
      | _ \<Rightarrow> Inl (MultipleObjectsReturned m))"

subsection \<open>Collaborators of zerver/models.py\<close>

text \<open>Modelled from the spec: \<open>Stream.is_public\<close> (zerver/models.py is not part of the
  sources at hand); the spec's data model derives the flag from \<open>invite_only\<close>.\<close>

definition is_public :: "Stream \<Rightarrow> bool" where
  "is_public stream = (\<not> invite_only stream)"

text \<open>Modelled from the spec: \<open>get_recipient(kind, channel_id)\<close>, a single lookup that fails
  when the channel has no recipient.\<close>

definition get_recipient :: "database \<Rightarrow> recipient_type \<Rightarrow> int \<Rightarrow> exn + Recipient" where
  "get_recipient db t tid =
     objects_get RecipientModel (\<lambda>r. type_id r = tid \<and> rtype r = t) (recipients db)"

text \<open>Modelled from the spec: \<open>bulk_get_recipients(kind, channel_ids)\<close>, a dictionary from
  channel id to \<open>Recipient\<close>, here an association list with one entry per key (a later
  row with the same key replaces the earlier one, as a dictionary assignment does).\<close>

definition bulk_get_recipients ::
  "database \<Rightarrow> recipient_type \<Rightarrow> int list \<Rightarrow> (int \<times> Recipient) list" where
  "bulk_get_recipients db t type_ids =
     foldl (\<lambda>m r. AList.update (type_id r) r m) []
       (filter (\<lambda>r. rtype r = t \<and> type_id r \<in> set type_ids) (recipients db))"

text \<open>\<open>dict.values()\<close>\<close>

definition dict_values :: "('k \<times> 'v) list \<Rightarrow> 'v list" where
  "dict_values m = map snd m"

text \<open>Modelled from the spec: \<open>get_stream(name, realm)\<close>, the channel of that name in that
  organization, or \<open>None\<close>.\<close>

definition get_stream :: "database \<Rightarrow> string \<Rightarrow> int \<Rightarrow> Stream option" where
  "get_stream db stream_name realm =
     find (\<lambda>s. name s = stream_name \<and> stream_realm_id s = realm) (stream_rows db)"

subsection \<open>The module\<close>

text \<open>
  \<open>Subscription.objects.get(user_profile=user_profile, recipient=recipient, active=True)\<close>
  inside \<open>try ... except Subscription.DoesNotExist: sub = None\<close>.
\<close>

definition active_subscriptions :: "database \<Rightarrow> UserProfile \<Rightarrow> Recipient \<Rightarrow> Subscription list" where
  "active_subscriptions db user_profile r =
     filter (\<lambda>sub. user_profile_id sub = user_id user_profile
                 \<and> recipient_id (recipient sub) = recipient_id r
                 \<and> active sub) (subscriptions db)"

definition access_stream_common ::
  "database \<Rightarrow> UserProfile \<Rightarrow> Stream \<Rightarrow> string \<Rightarrow> exn + (Recipient \<times> Subscription option)" where
  "access_stream_common db user_profile stream error =
     (if stream_realm_id stream \<noteq> user_realm_id user_profile then Inl (JsonableError error)
      else
        case get_recipient db STREAM (stream_id stream) of
          Inl e \<Rightarrow> Inl e
        | Inr r \<Rightarrow>
            (case (case objects_get SubscriptionModel
                          (\<lambda>sub. user_profile_id sub = user_id user_profile
                               \<and> recipient_id (recipient sub) = recipient_id r
                               \<and> active sub) (subscriptions db) of
                     Inr sub \<Rightarrow> Inr (Some sub)
                   | Inl e \<Rightarrow> if e = DoesNotExist SubscriptionModel then Inr None else Inl e) of
               Inl e \<Rightarrow> Inl e
             | Inr sub \<Rightarrow>
                 if is_public stream then Inr (r, sub)
                 else if sub \<noteq> None then Inr (r, sub)
                 else Inl (JsonableError error)))"

text \<open>
  The translation function \<open>_\<close> (Django's \<open>ugettext\<close>) is a parameter \<open>tr\<close>: what it
  returns depends on the language active for the request.
\<close>

definition access_stream_by_id ::
  "(string \<Rightarrow> string) \<Rightarrow> database \<Rightarrow> UserProfile \<Rightarrow> int
     \<Rightarrow> exn + (Stream \<times> Recipient \<times> Subscription option)" where
  "access_stream_by_id tr db user_profile sid =
     (let error = tr ''Invalid stream id'' in
      case objects_get StreamModel (\<lambda>s. stream_id s = sid) (stream_rows db) of
        Inl e \<Rightarrow> if e = DoesNotExist StreamModel then Inl (JsonableError error) else Inl e
      | Inr stream \<Rightarrow>
          (case access_stream_common db user_profile stream error of
             Inl e \<Rightarrow> Inl e
           | Inr (r, sub) \<Rightarrow> Inr (stream, r, sub)))"

text \<open>\<open>"Invalid stream name '%s'" % (stream_name,)\<close>\<close>

definition invalid_stream_name :: "string \<Rightarrow> string" where
  "invalid_stream_name stream_name =
     ''Invalid stream name '' @ [CHR 0x27] @ stream_name @ [CHR 0x27]"

definition access_stream_by_name ::
  "(string \<Rightarrow> string) \<Rightarrow> database \<Rightarrow> UserProfile \<Rightarrow> string
     \<Rightarrow> exn + (Stream \<times> Recipient \<times> Subscription option)" where
  "access_stream_by_name tr db user_profile stream_name =
     (let error = tr (invalid_stream_name stream_name) in
      case get_stream db stream_name (user_realm_id user_profile) of
        None \<Rightarrow> Inl (JsonableError error)
      | Some stream \<Rightarrow>
          (case access_stream_common db user_profile stream error of
             Inl e \<Rightarrow> Inl e
           | Inr (r, sub) \<Rightarrow> Inr (stream, r, sub)))"

text \<open>The loop \<open>for sub in subs: streams_subscribed.add(sub.recipient.type_id)\<close>.\<close>

fun add_subscribed :: "Subscription list \<Rightarrow> int set \<Rightarrow> int set" where
  "add_subscribed [] streams_subscribed = streams_subscribed"
| "add_subscribed (sub # subs) streams_subscribed =
     add_subscribed subs (insert (type_id (recipient sub)) streams_subscribed)"

text \<open>The loop over \<open>streams\<close> that appends to \<open>unauthorized_streams\<close>.\<close>

fun collect_unauthorized :: "int set \<Rightarrow> Stream list \<Rightarrow> Stream list \<Rightarrow> Stream list" where
  "collect_unauthorized streams_subscribed [] unauthorized_streams = unauthorized_streams"
| "collect_unauthorized streams_subscribed (stream # rest) unauthorized_streams =
     (if stream_id stream \<in> streams_subscribed
      then collect_unauthorized streams_subscribed rest unauthorized_streams
      else if invite_only stream
      then collect_unauthorized streams_subscribed rest (unauthorized_streams @ [stream])
      else collect_unauthorized streams_subscribed rest unauthorized_streams)"

definition filter_stream_authorization ::
  "database \<Rightarrow> UserProfile \<Rightarrow> Stream list \<Rightarrow> Stream list \<times> Stream list" where
  "filter_stream_authorization db user_profile streams =
     (let recipients_map = bulk_get_recipients db STREAM (map stream_id streams);
          subs = filter (\<lambda>sub. user_profile_id sub = user_id user_profile
                              \<and> recipient_id (recipient sub)
                                  \<in> set (map recipient_id (dict_values recipients_map))
                              \<and> active sub) (subscriptions db);
          streams_subscribed = add_subscribed subs {};
          unauthorized_streams = collect_unauthorized streams_subscribed streams [];
          authorized_streams =
            filter (\<lambda>stream. stream_id stream \<notin> set (map stream_id unauthorized_streams)) streams
      in (authorized_streams, unauthorized_streams))"

subsection \<open>Invariants of the persistence layer and notions of the specification\<close>

text \<open>
  What the persistence layer guarantees about the rows: the primary key of a recipient is
  unique, a (type, type_id) pair names one recipient (one recipient per channel), and the
  recipient of a subscription is a row of the recipient table (foreign key).
\<close>

definition db_ok :: "database \<Rightarrow> bool" where
  "db_ok db =
     (distinct (map recipient_id (recipients db))
      \<and> distinct (map (\<lambda>r. (rtype r, type_id r)) (recipients db))
      \<and> list_all (\<lambda>sub. recipient sub \<in> set (recipients db)) (subscriptions db))"

text \<open>The user has an active subscription to the recipient of the stream.\<close>

definition has_active_subscription :: "database \<Rightarrow> UserProfile \<Rightarrow> Stream \<Rightarrow> bool" where
  "has_active_subscription db user_profile stream =
     (case get_recipient db STREAM (stream_id stream) of
        Inl e \<Rightarrow> False
      | Inr r \<Rightarrow> active_subscriptions db user_profile r \<noteq> [])"

subsection \<open>An example organization\<close>

text \<open>
  User 7 of organization 1; stream 1 is public, streams 2 and 3 are invite-only, stream 4
  is a public stream of organization 2. The user is actively subscribed to stream 2 only:
  the subscription to stream 3 is inactive, and the active one there is another user's.
\<close>

definition ex_user :: UserProfile where
  "ex_user = \<lparr>user_id = 7, user_realm_id = 1\<rparr>"

definition ex_general :: Stream where
  "ex_general = \<lparr>stream_id = 1, stream_realm_id = 1, name = ''general'', invite_only = False\<rparr>"

definition ex_core :: Stream where
  "ex_core = \<lparr>stream_id = 2, stream_realm_id = 1, name = ''core'', invite_only = True\<rparr>"

definition ex_secret :: Stream where
  "ex_secret = \<lparr>stream_id = 3, stream_realm_id = 1, name = ''secret'', invite_only = True\<rparr>"

definition ex_foreign :: Stream where
  "ex_foreign = \<lparr>stream_id = 4, stream_realm_id = 2, name = ''foreign'', invite_only = False\<rparr>"

definition ex_recipient :: "int \<Rightarrow> Recipient" where
  "ex_recipient i = \<lparr>recipient_id = 10 + i, rtype = STREAM, type_id = i\<rparr>"

definition ex_sub :: Subscription where
  "ex_sub = \<lparr>user_profile_id = 7, recipient = ex_recipient 2, active = True\<rparr>"

definition ex_db :: database where
  "ex_db =
     \<lparr>stream_rows = [ex_general, ex_core, ex_secret, ex_foreign],
      recipients = [ex_recipient 1, ex_recipient 2, ex_recipient 3, ex_recipient 4],
      subscriptions =
        [ex_sub,
         \<lparr>user_profile_id = 7, recipient = ex_recipient 3, active = False\<rparr>,
         \<lparr>user_profile_id = 8, recipient = ex_recipient 3, active = True\<rparr>]\<rparr>"

lemmas ex_defs =
  ex_user_def ex_general_def ex_core_def ex_secret_def ex_foreign_def ex_recipient_def
  ex_sub_def ex_db_def

section \<open>Auxiliary facts\<close>

subsection \<open>The loops\<close>

lemma collect_unauthorized_filter:
  "collect_unauthorized S xs acc = acc @ filter (\<lambda>s. stream_id s \<notin> S \<and> invite_only s) xs"
  by (induction xs arbitrary: acc) simp_all

lemma add_subscribed_image:
  "add_subscribed subs S = S \<union> (\<lambda>sub. type_id (recipient sub)) ` set subs"
  by (induction subs arbitrary: S) auto

subsection \<open>Lookups\<close>

lemma update_fresh: "k \<notin> fst ` set al \<Longrightarrow> AList.update k v al = al @ [(k, v)]"
  by (induction al) auto

lemma foldl_update_distinct:
  "distinct (map f xs) \<Longrightarrow> f ` set xs \<inter> fst ` set m = {} \<Longrightarrow>
   foldl (\<lambda>m r. AList.update (f r) r m) m xs = m @ map (\<lambda>r. (f r, r)) xs"
proof (induction xs arbitrary: m)
  case Nil
  then show ?case by simp
next
  case (Cons x xs)
  have fresh: "f x \<notin> fst ` set m" using Cons.prems(2) by auto
  have "f ` set xs \<inter> fst ` set (m @ [(f x, x)]) = {}"
    using Cons.prems by auto
  with Cons.IH [of "m @ [(f x, x)]"] Cons.prems(1) fresh show ?case
    by (simp add: update_fresh)
qed

lemma distinct_filter_le1:
  "distinct (map f xs) \<Longrightarrow> x \<in> set xs \<Longrightarrow> filter (\<lambda>y. f y = f x) xs = [x]"
proof (induction xs)
  case Nil
  then show ?case by simp
next
  case (Cons a xs)
  show ?case
  proof (cases "a = x")
    case True
    have "filter (\<lambda>y. f y = f x) xs = []"
    proof (rule ccontr)
      assume "filter (\<lambda>y. f y = f x) xs \<noteq> []"
      then obtain y where "y \<in> set xs" "f y = f x"
        by (auto simp: filter_empty_conv)
      then have "f x \<in> f ` set xs" by (metis imageI)
      with Cons.prems(1) True show False by simp
    qed
    with True show ?thesis by simp
  next
    case False
    with Cons.prems have "x \<in> set xs" "f a \<noteq> f x" by auto
    with Cons show ?thesis by simp
  qed
qed

lemma distinct_second:
  "distinct (map (\<lambda>r. (g r, f r)) xs) \<Longrightarrow> \<forall>x\<in>set xs. g x = t \<Longrightarrow> distinct (map f xs)"
  by (induction xs) force+

lemma set_bulk_get_recipients:
  assumes "distinct (map (\<lambda>r. (rtype r, type_id r)) (recipients db))"
  shows "set (dict_values (bulk_get_recipients db t ids)) =
           {r \<in> set (recipients db). rtype r = t \<and> type_id r \<in> set ids}"
proof -
  let ?rows = "filter (\<lambda>r. rtype r = t \<and> type_id r \<in> set ids) (recipients db)"
  have "distinct (map (\<lambda>r. (rtype r, type_id r)) ?rows)"
    using assms by (rule distinct_map_filter)
  then have "distinct (map type_id ?rows)"
    by (rule distinct_second [where g = rtype and t = t]) simp
  then have "bulk_get_recipients db t ids = map (\<lambda>r. (type_id r, r)) ?rows"
    unfolding bulk_get_recipients_def
    using foldl_update_distinct [of type_id ?rows "[]"] by simp
  then show ?thesis
    by (auto simp: dict_values_def comp_def)
qed

lemma get_recipient_iff:
  assumes "distinct (map (\<lambda>r. (rtype r, type_id r)) (recipients db))"
  shows "get_recipient db t i = Inr r \<longleftrightarrow> r \<in> set (recipients db) \<and> rtype r = t \<and> type_id r = i"
proof
  assume "get_recipient db t i = Inr r"
  then have "filter (\<lambda>r. type_id r = i \<and> rtype r = t) (recipients db) = [r]"
    by (auto simp: get_recipient_def objects_get_def split: list.splits)
  then have "r \<in> set (filter (\<lambda>r. type_id r = i \<and> rtype r = t) (recipients db))"
    by simp
  then show "r \<in> set (recipients db) \<and> rtype r = t \<and> type_id r = i" by auto
next
  assume r: "r \<in> set (recipients db) \<and> rtype r = t \<and> type_id r = i"
  have "filter (\<lambda>y. type_id y = i \<and> rtype y = t) (recipients db)
      = filter (\<lambda>y. (rtype y, type_id y) = (rtype r, type_id r)) (recipients db)"
    using r by (intro filter_cong) auto
  also have "\<dots> = [r]"
    using assms r by (intro distinct_filter_le1) auto
  finally have "filter (\<lambda>y. type_id y = i \<and> rtype y = t) (recipients db) = [r]" .
  then show "get_recipient db t i = Inr r"
    by (simp add: get_recipient_def objects_get_def)
qed

subsection \<open>The bulk filter in closed form\<close>

lemma snd_filter_stream_authorization:
  "snd (filter_stream_authorization db u streams) =
     filter (\<lambda>s. stream_id s \<notin>
        add_subscribed (filter (\<lambda>sub. user_profile_id sub = user_id u
              \<and> recipient_id (recipient sub)
                  \<in> set (map recipient_id (dict_values (bulk_get_recipients db STREAM (map stream_id streams))))
              \<and> active sub) (subscriptions db)) {} \<and> invite_only s) streams"
  by (simp add: filter_stream_authorization_def Let_def collect_unauthorized_filter)

lemma fst_filter_stream_authorization:
  "fst (filter_stream_authorization db u streams) =
     filter (\<lambda>s. stream_id s \<notin> stream_id ` set (snd (filter_stream_authorization db u streams))) streams"
  by (simp add: filter_stream_authorization_def Let_def)

lemma same_recipient:
  assumes "distinct (map recipient_id (recipients db))"
    and "r \<in> set (recipients db)" and "r' \<in> set (recipients db)"
    and "recipient_id r = recipient_id r'"
  shows "r = r'"
  using assms by (meson distinct_map inj_onD)

lemma subscribed_iff:
  assumes ok: "db_ok db" and s: "s \<in> set streams"
  shows "stream_id s \<in>
        add_subscribed (filter (\<lambda>sub. user_profile_id sub = user_id u
              \<and> recipient_id (recipient sub)
                  \<in> set (map recipient_id (dict_values (bulk_get_recipients db STREAM (map stream_id streams))))
              \<and> active sub) (subscriptions db)) {}
     \<longleftrightarrow> has_active_subscription db u s"
    (is "?L \<longleftrightarrow> ?R")
proof -
  from ok have pk: "distinct (map recipient_id (recipients db))"
    and uq: "distinct (map (\<lambda>r. (rtype r, type_id r)) (recipients db))"
    and fk: "\<And>sub. sub \<in> set (subscriptions db) \<Longrightarrow> recipient sub \<in> set (recipients db)"
    by (auto simp: db_ok_def list_all_iff)
  let ?vals = "dict_values (bulk_get_recipients db STREAM (map stream_id streams))"
  have vals: "set ?vals = {r \<in> set (recipients db). rtype r = STREAM \<and> type_id r \<in> stream_id ` set streams}"
    using set_bulk_get_recipients [OF uq, of STREAM "map stream_id streams"] by simp
  show ?thesis
  proof
    assume ?L
    then obtain sub r where sub: "sub \<in> set (subscriptions db)" "user_profile_id sub = user_id u"
      "active sub" "type_id (recipient sub) = stream_id s"
      and r: "r \<in> set ?vals" "recipient_id (recipient sub) = recipient_id r"
      by (auto simp: add_subscribed_image)
    from r(1) vals have r_row: "r \<in> set (recipients db)" "rtype r = STREAM" by auto
    have eq: "recipient sub = r"
      using same_recipient [OF pk fk [OF sub(1)] r_row(1) r(2)] .
    with r_row sub(4) have "get_recipient db STREAM (stream_id s) = Inr r"
      by (simp add: get_recipient_iff [OF uq])
    moreover have "sub \<in> set (active_subscriptions db u r)"
      using sub r(2) by (simp add: active_subscriptions_def)
    ultimately show ?R
      by (auto simp: has_active_subscription_def)
  next
    assume ?R
    then obtain r sub where r: "get_recipient db STREAM (stream_id s) = Inr r"
      and sub: "sub \<in> set (active_subscriptions db u r)"
      by (auto simp: has_active_subscription_def split: sum.splits dest!: hd_in_set)
    from r have r_row: "r \<in> set (recipients db)" "rtype r = STREAM" "type_id r = stream_id s"
      by (simp_all add: get_recipient_iff [OF uq])
    from sub have sub': "sub \<in> set (subscriptions db)" "user_profile_id sub = user_id u"
      "active sub" "recipient_id (recipient sub) = recipient_id r"
      by (simp_all add: active_subscriptions_def)
    have eq: "recipient sub = r"
      using same_recipient [OF pk fk [OF sub'(1)] r_row(1) sub'(4)] .
    have "r \<in> set ?vals"
      using vals r_row s by auto
    then have "recipient_id (recipient sub) \<in> set (map recipient_id ?vals)"
      using eq by auto
    with sub' eq r_row(3) show ?L
      by (auto simp: add_subscribed_image intro!: image_eqI [where x = sub])
  qed
qed

subsection \<open>Errors of the single-stream check\<close>

lemma access_stream_common_message:
  "access_stream_common db u s err = Inl (JsonableError e) \<Longrightarrow> e = err"
  by (auto simp: access_stream_common_def get_recipient_def objects_get_def
      split: if_splits sum.splits list.splits)

lemma access_common_private_unsubscribed:
  assumes "invite_only s" and "get_recipient db STREAM (stream_id s) = Inr r"
    and "active_subscriptions db u r = []"
  shows "access_stream_common db u s err = Inl (JsonableError err)"
  using assms
  by (simp add: access_stream_common_def active_subscriptions_def objects_get_def is_public_def)

subsection \<open>Counting in a filtered list\<close>

lemma count_list_filter:
  "count_list (filter P xs) x = (if P x then count_list xs x else 0)"
  by (induction xs) auto

subsection \<open>The two result lists as sets\<close>

lemma unauthorized_subset: "set (snd (filter_stream_authorization db u streams)) \<subseteq> set streams"
  by (auto simp: snd_filter_stream_authorization)

lemma unauthorized_invite_only:
  "s \<in> set (snd (filter_stream_authorization db u streams)) \<Longrightarrow> invite_only s"
  by (simp add: snd_filter_stream_authorization)


lemma authorized_or_unauthorized_ids:
  "stream_id ` set (fst (filter_stream_authorization db u streams))
     \<union> stream_id ` set (snd (filter_stream_authorization db u streams)) = stream_id ` set streams"
  (is "?A \<union> ?U = ?S")
proof
  show "?A \<union> ?U \<subseteq> ?S"
    using unauthorized_subset [of db u streams]
    by (auto simp: fst_filter_stream_authorization)
  show "?S \<subseteq> ?A \<union> ?U"
  proof
    fix i assume "i \<in> ?S"
    then obtain s where s: "s \<in> set streams" "i = stream_id s" by auto
    show "i \<in> ?A \<union> ?U"
    proof (cases "i \<in> ?U")
      case True
      then show ?thesis by simp
    next
      case False
      with s have "s \<in> set (fst (filter_stream_authorization db u streams))"
        by (subst fst_filter_stream_authorization) simp
      with s(2) show ?thesis by auto
    qed
  qed
qed

lemma authorized_or_unauthorized:
  assumes "inj_on stream_id (set streams)"
  shows "set (fst (filter_stream_authorization db u streams))
     \<union> set (snd (filter_stream_authorization db u streams)) = set streams"
  (is "?A \<union> ?U = ?S")
proof
  show "?A \<union> ?U \<subseteq> ?S"
    using unauthorized_subset [of db u streams]
    by (auto simp: fst_filter_stream_authorization)
  show "?S \<subseteq> ?A \<union> ?U"
  proof
    fix s assume s: "s \<in> ?S"
    show "s \<in> ?A \<union> ?U"
    proof (cases "stream_id s \<in> stream_id ` ?U")
      case True
      then obtain s' where s': "s' \<in> ?U" "stream_id s = stream_id s'" by auto
      with unauthorized_subset [of db u streams] have "s' \<in> set streams" by auto
      with assms s s'(2) have "s = s'" by (auto dest: inj_onD)
      with s'(1) show ?thesis by simp
    next
      case False
      with s have "s \<in> ?A"
        by (subst fst_filter_stream_authorization) simp
      then show ?thesis by simp
    qed
  qed
qed


subsection \<open>The example organization, filtered\<close>

lemma ex_filter_stream_authorization:
  "filter_stream_authorization ex_db ex_user
      [ex_general, ex_secret, ex_core, ex_secret, ex_foreign, ex_general]
   = ([ex_general, ex_core, ex_foreign, ex_general], [ex_secret, ex_secret])"
  by (simp add: filter_stream_authorization_def bulk_get_recipients_def dict_values_def
      ex_defs)

lemma ex_inj_on:
  "inj_on stream_id (set [ex_general, ex_secret, ex_core, ex_secret, ex_foreign, ex_general])"
  by (auto simp: inj_on_def ex_defs)

subsection \<open>Records that share an id\<close>

text \<open>
  The second list comprehension of \<open>filter_stream_authorization\<close> removes by id. Two
  records with one id and different flags (which rows of a table keyed by the id never
  are) show it: the public copy goes with the invite-only one, and is in neither list.
  This is why the facts about the streams of the two lists, as opposed to their ids, ask
  that an id names one stream of the input.
\<close>

lemma shared_id_example:
  "filter_stream_authorization ex_db ex_user [ex_secret\<lparr>invite_only := False\<rparr>, ex_secret]
     = ([], [ex_secret])"
  by (simp add: filter_stream_authorization_def bulk_get_recipients_def dict_values_def
      ex_defs)

section \<open>Access to a single stream\<close>

text \<open>
  C1. For a user and an invite-only stream of the user's organization,
  \<open>access_stream_common\<close> succeeds if and only if the user has an active subscription to
  the stream's recipient; on success it returns the recipient and that subscription, and
  on failure it raises \<open>JsonableError\<close> with the message the caller supplied. The stream
  has its recipient and the user at most one active subscription to it, as the data model
  has it.
\<close>

theorem private_stream_access:
  assumes "stream_realm_id stream = user_realm_id user_profile"
    and "invite_only stream"
    and "get_recipient db STREAM (stream_id stream) = Inr r"
    and "length (active_subscriptions db user_profile r) \<le> 1"
  shows "((\<exists>res. access_stream_common db user_profile stream error = Inr res)
            \<longleftrightarrow> active_subscriptions db user_profile r \<noteq> [])
       \<and> (\<forall>sub. sub \<in> set (active_subscriptions db user_profile r)
            \<longrightarrow> access_stream_common db user_profile stream error = Inr (r, Some sub))
       \<and> (active_subscriptions db user_profile r = []
            \<longrightarrow> access_stream_common db user_profile stream error = Inl (JsonableError error))"
proof (cases "active_subscriptions db user_profile r")
  case Nil
  with assms show ?thesis
    by (simp add: access_stream_common_def active_subscriptions_def objects_get_def is_public_def)
next
  case (Cons sub rest)
  with assms(4) have "rest = []" by simp
  with Cons assms show ?thesis
    by (simp add: access_stream_common_def active_subscriptions_def objects_get_def is_public_def)
qed

theorem private_stream_access_witness:
  "access_stream_common ex_db ex_user ex_core ''denied'' = Inr (ex_recipient 2, Some ex_sub)
   \<and> access_stream_common ex_db ex_user ex_secret ''denied'' = Inl (JsonableError ''denied'')"
proof -
  have a: "stream_realm_id ex_core = user_realm_id ex_user" "invite_only ex_core"
    "get_recipient ex_db STREAM (stream_id ex_core) = Inr (ex_recipient 2)"
    "active_subscriptions ex_db ex_user (ex_recipient 2) = [ex_sub]"
    by (simp_all add: ex_defs get_recipient_def objects_get_def active_subscriptions_def)
  have b: "stream_realm_id ex_secret = user_realm_id ex_user" "invite_only ex_secret"
    "get_recipient ex_db STREAM (stream_id ex_secret) = Inr (ex_recipient 3)"
    "active_subscriptions ex_db ex_user (ex_recipient 3) = []"
    by (simp_all add: ex_defs get_recipient_def objects_get_def active_subscriptions_def)
  from private_stream_access [OF a(1,2,3), of "''denied''"] a(4)
  have "access_stream_common ex_db ex_user ex_core ''denied'' = Inr (ex_recipient 2, Some ex_sub)"
    by simp
  moreover from private_stream_access [OF b(1,2,3), of "''denied''"] b(4)
  have "access_stream_common ex_db ex_user ex_secret ''denied'' = Inl (JsonableError ''denied'')"
    by simp
  ultimately show ?thesis by simp
qed

text \<open>
  C2. For a user and a stream of another organization, \<open>access_stream_common\<close> raises
  \<open>JsonableError\<close> with the caller's message whatever the database holds: the stream may
  be public, the user subscribed, a lookup may fail or not.
\<close>

theorem other_realm_denied:
  assumes "stream_realm_id stream \<noteq> user_realm_id user_profile"
  shows "access_stream_common db user_profile stream error = Inl (JsonableError error)"
  using assms by (simp add: access_stream_common_def)

theorem other_realm_denied_witness:
  "access_stream_common ex_db ex_user ex_foreign ''denied'' = Inl (JsonableError ''denied'')"
  by (rule other_realm_denied) (simp add: ex_defs)

text \<open>
  C3. For a user and a public stream of the user's organization, \<open>access_stream_common\<close>
  succeeds whatever the subscriptions are: it returns the stream's recipient with the
  user's active subscription when there is one and with \<open>None\<close> otherwise.
\<close>

theorem public_stream_access:
  assumes "stream_realm_id stream = user_realm_id user_profile"
    and "\<not> invite_only stream"
    and "get_recipient db STREAM (stream_id stream) = Inr r"
    and "length (active_subscriptions db user_profile r) \<le> 1"
  shows "access_stream_common db user_profile stream error =
           Inr (r, case active_subscriptions db user_profile r of
                     [] \<Rightarrow> None
                   | sub # rest \<Rightarrow> Some sub)"
proof (cases "active_subscriptions db user_profile r")
  case Nil
  with assms show ?thesis
    by (simp add: access_stream_common_def active_subscriptions_def objects_get_def is_public_def)
next
  case (Cons sub rest)
  with assms(4) have "rest = []" by simp
  with Cons assms show ?thesis
    by (simp add: access_stream_common_def active_subscriptions_def objects_get_def is_public_def)
qed

theorem public_stream_access_witness:
  "access_stream_common ex_db ex_user ex_general ''denied'' = Inr (ex_recipient 1, None)"
proof -
  have a: "stream_realm_id ex_general = user_realm_id ex_user" "\<not> invite_only ex_general"
    "get_recipient ex_db STREAM (stream_id ex_general) = Inr (ex_recipient 1)"
    "active_subscriptions ex_db ex_user (ex_recipient 1) = []"
    by (simp_all add: ex_defs get_recipient_def objects_get_def active_subscriptions_def)
  from public_stream_access [OF a(1,2,3), of "''denied''"] a(4)
  show ?thesis by simp
qed

section \<open>Lookup by id and by name\<close>

text \<open>
  C4 (amended). \<open>access_stream_by_id\<close> raises \<open>JsonableError\<close> with one and the same
  message when no stream has the id, when the stream is invite-only and the user has no
  active subscription to it, and when the stream belongs to another organization. The
  message is the translation of the fixed text \<open>Invalid stream id\<close>, with a capital I.
\<close>

theorem access_by_id_same_message:
  "(sid \<notin> stream_id ` set (stream_rows db)
      \<longrightarrow> access_stream_by_id tr db u sid = Inl (JsonableError (tr ''Invalid stream id'')))
   \<and> (\<forall>s r. objects_get StreamModel (\<lambda>s. stream_id s = sid) (stream_rows db) = Inr s
            \<and> invite_only s
            \<and> get_recipient db STREAM (stream_id s) = Inr r
            \<and> active_subscriptions db u r = []
      \<longrightarrow> access_stream_by_id tr db u sid = Inl (JsonableError (tr ''Invalid stream id'')))
   \<and> (\<forall>s. objects_get StreamModel (\<lambda>s. stream_id s = sid) (stream_rows db) = Inr s
            \<and> stream_realm_id s \<noteq> user_realm_id u
      \<longrightarrow> access_stream_by_id tr db u sid = Inl (JsonableError (tr ''Invalid stream id'')))"
proof (intro conjI allI impI)
  assume "sid \<notin> stream_id ` set (stream_rows db)"
  then have "filter (\<lambda>s. stream_id s = sid) (stream_rows db) = []"
    by (auto simp: filter_empty_conv)
  then show "access_stream_by_id tr db u sid = Inl (JsonableError (tr ''Invalid stream id''))"
    by (simp add: access_stream_by_id_def objects_get_def)
next
  fix s r
  assume a: "objects_get StreamModel (\<lambda>s. stream_id s = sid) (stream_rows db) = Inr s
            \<and> invite_only s
            \<and> get_recipient db STREAM (stream_id s) = Inr r
            \<and> active_subscriptions db u r = []"
  then have "access_stream_common db u s (tr ''Invalid stream id'')
               = Inl (JsonableError (tr ''Invalid stream id''))"
    using access_common_private_unsubscribed [of s db r u] by simp
  with a show "access_stream_by_id tr db u sid = Inl (JsonableError (tr ''Invalid stream id''))"
    by (simp add: access_stream_by_id_def)
next
  fix s
  assume a: "objects_get StreamModel (\<lambda>s. stream_id s = sid) (stream_rows db) = Inr s
            \<and> stream_realm_id s \<noteq> user_realm_id u"
  then have "access_stream_common db u s (tr ''Invalid stream id'')
               = Inl (JsonableError (tr ''Invalid stream id''))"
    by (simp add: access_stream_common_def)
  with a show "access_stream_by_id tr db u sid = Inl (JsonableError (tr ''Invalid stream id''))"
    by (simp add: access_stream_by_id_def)
qed

theorem access_by_id_same_message_witness:
  "access_stream_by_id (\<lambda>s. s) ex_db ex_user 99 = Inl (JsonableError ''Invalid stream id'')
   \<and> access_stream_by_id (\<lambda>s. s) ex_db ex_user 3 = Inl (JsonableError ''Invalid stream id'')
   \<and> access_stream_by_id (\<lambda>s. s) ex_db ex_user 4 = Inl (JsonableError ''Invalid stream id'')"
proof -
  have a: "99 \<notin> stream_id ` set (stream_rows ex_db)"
    by (simp add: ex_defs)
  have b: "objects_get StreamModel (\<lambda>s. stream_id s = 3) (stream_rows ex_db) = Inr ex_secret
            \<and> invite_only ex_secret
            \<and> get_recipient ex_db STREAM (stream_id ex_secret) = Inr (ex_recipient 3)
            \<and> active_subscriptions ex_db ex_user (ex_recipient 3) = []"
    by (simp add: ex_defs get_recipient_def objects_get_def active_subscriptions_def)
  have c: "objects_get StreamModel (\<lambda>s. stream_id s = 4) (stream_rows ex_db) = Inr ex_foreign
            \<and> stream_realm_id ex_foreign \<noteq> user_realm_id ex_user"
    by (simp add: ex_defs objects_get_def)
  from a b c
    access_by_id_same_message [of 99 ex_db "\<lambda>s. s" ex_user]
    access_by_id_same_message [of 3 ex_db "\<lambda>s. s" ex_user]
    access_by_id_same_message [of 4 ex_db "\<lambda>s. s" ex_user]
  show ?thesis by blast
qed

text \<open>
  C4 as stated gives the message as \<open>invalid stream id\<close>. With the identity as
  translation, the message for an id that names no stream is \<open>Invalid stream id\<close>, which
  is another string.
\<close>

theorem access_by_id_message_counterexample:
  "access_stream_by_id (\<lambda>s. s) ex_db ex_user 99 = Inl (JsonableError ''Invalid stream id'')
   \<and> access_stream_by_id (\<lambda>s. s) ex_db ex_user 99 \<noteq> Inl (JsonableError ''invalid stream id'')"
  by (simp add: access_stream_by_id_def objects_get_def ex_defs)

text \<open>
  C8. \<open>access_stream_by_name\<close> looks the name up in the user's organization. When no
  stream is found, and when the stream found is denied by \<open>access_stream_common\<close> (as an
  invite-only stream without an active subscription is), it raises \<open>JsonableError\<close> with
  the same message: the translation of the text that quotes the queried name. A stream it
  returns is the one found under that name in the user's organization.
\<close>

theorem access_by_name_same_message:
  "(get_stream db stream_name (user_realm_id u) = None
      \<longrightarrow> access_stream_by_name tr db u stream_name
            = Inl (JsonableError (tr (invalid_stream_name stream_name))))
   \<and> (\<forall>s e. get_stream db stream_name (user_realm_id u) = Some s
            \<and> access_stream_common db u s (tr (invalid_stream_name stream_name))
                = Inl (JsonableError e)
      \<longrightarrow> access_stream_by_name tr db u stream_name
            = Inl (JsonableError (tr (invalid_stream_name stream_name))))
   \<and> (\<forall>s r. get_stream db stream_name (user_realm_id u) = Some s
            \<and> invite_only s
            \<and> get_recipient db STREAM (stream_id s) = Inr r
            \<and> active_subscriptions db u r = []
      \<longrightarrow> access_stream_by_name tr db u stream_name
            = Inl (JsonableError (tr (invalid_stream_name stream_name))))
   \<and> (\<forall>s r sub. access_stream_by_name tr db u stream_name = Inr (s, r, sub)
      \<longrightarrow> get_stream db stream_name (user_realm_id u) = Some s
          \<and> name s = stream_name \<and> stream_realm_id s = user_realm_id u)
   \<and> invalid_stream_name stream_name
        = ''Invalid stream name '' @ [CHR 0x27] @ stream_name @ [CHR 0x27]"
  (is "?missing \<and> ?denied \<and> ?private \<and> ?found \<and> ?text")
proof -
  let ?error = "tr (invalid_stream_name stream_name)"
  have h_missing: ?missing
    by (simp add: access_stream_by_name_def)
  have h_denied: ?denied
  proof (intro allI impI)
    fix s e
    assume a: "get_stream db stream_name (user_realm_id u) = Some s
            \<and> access_stream_common db u s ?error = Inl (JsonableError e)"
    then have "e = ?error"
      by (blast dest: access_stream_common_message)
    with a show "access_stream_by_name tr db u stream_name = Inl (JsonableError ?error)"
      by (simp add: access_stream_by_name_def)
  qed
  have h_private: ?private
  proof (intro allI impI)
    fix s r
    assume a: "get_stream db stream_name (user_realm_id u) = Some s
            \<and> invite_only s
            \<and> get_recipient db STREAM (stream_id s) = Inr r
            \<and> active_subscriptions db u r = []"
    then have "access_stream_common db u s ?error = Inl (JsonableError ?error)"
      using access_common_private_unsubscribed [of s db r u] by simp
    with a show "access_stream_by_name tr db u stream_name = Inl (JsonableError ?error)"
      by (simp add: access_stream_by_name_def)
  qed
  have h_found: ?found
  proof (intro allI impI)
    fix s r sub
    assume "access_stream_by_name tr db u stream_name = Inr (s, r, sub)"
    then have got: "get_stream db stream_name (user_realm_id u) = Some s"
      by (auto simp: access_stream_by_name_def Let_def
          split: option.splits sum.splits prod.splits)
    then have "name s = stream_name \<and> stream_realm_id s = user_realm_id u"
      by (auto simp: get_stream_def find_Some_iff)
    with got show "get_stream db stream_name (user_realm_id u) = Some s
          \<and> name s = stream_name \<and> stream_realm_id s = user_realm_id u"
      by simp
  qed
  have h_text: ?text
    by (simp add: invalid_stream_name_def)
  from h_missing h_denied h_private h_found h_text show ?thesis
    by (intro conjI)
qed

theorem access_by_name_same_message_witness:
  "access_stream_by_name (\<lambda>s. s) ex_db ex_user ''nowhere''
     = Inl (JsonableError (invalid_stream_name ''nowhere''))
   \<and> access_stream_by_name (\<lambda>s. s) ex_db ex_user ''secret''
     = Inl (JsonableError (invalid_stream_name ''secret''))
   \<and> invalid_stream_name ''secret''
     = ''Invalid stream name '' @ [CHR 0x27] @ ''secret'' @ [CHR 0x27]"
proof -
  have a: "get_stream ex_db ''nowhere'' (user_realm_id ex_user) = None"
    by (simp add: ex_defs get_stream_def)
  have b: "get_stream ex_db ''secret'' (user_realm_id ex_user) = Some ex_secret
            \<and> invite_only ex_secret
            \<and> get_recipient ex_db STREAM (stream_id ex_secret) = Inr (ex_recipient 3)
            \<and> active_subscriptions ex_db ex_user (ex_recipient 3) = []"
    by (simp add: ex_defs get_stream_def get_recipient_def objects_get_def
        active_subscriptions_def)
  have "access_stream_by_name (\<lambda>s. s) ex_db ex_user ''nowhere''
     = Inl (JsonableError (invalid_stream_name ''nowhere''))"
    using a access_by_name_same_message [of ex_db "''nowhere''" ex_user "\<lambda>s. s"]
    by blast
  moreover have "access_stream_by_name (\<lambda>s. s) ex_db ex_user ''secret''
     = Inl (JsonableError (invalid_stream_name ''secret''))"
    using b access_by_name_same_message [of ex_db "''secret''" ex_user "\<lambda>s. s"]
    by blast
  moreover have "invalid_stream_name ''secret''
     = ''Invalid stream name '' @ [CHR 0x27] @ ''secret'' @ [CHR 0x27]"
    using access_by_name_same_message [of ex_db "''secret''" ex_user "\<lambda>s. s"]
    by blast
  ultimately show ?thesis
    by (intro conjI)
qed

section \<open>Filtering a list of streams\<close>

text \<open>
  C5. \<open>filter_stream_authorization\<close> puts a stream in the unauthorized list if and only
  if it is a stream of the input that is invite-only and the user has no active
  subscription to its recipient; a public stream is never in the unauthorized list. The
  rows satisfy the constraints of the persistence layer (\<open>db_ok\<close>).
\<close>

theorem unauthorized_iff:
  assumes "db_ok db"
  shows "(stream \<in> set (snd (filter_stream_authorization db u streams))
            \<longleftrightarrow> stream \<in> set streams \<and> invite_only stream
                \<and> \<not> has_active_subscription db u stream)
       \<and> (\<not> invite_only stream
            \<longrightarrow> stream \<notin> set (snd (filter_stream_authorization db u streams)))"
proof (cases "stream \<in> set streams")
  case True
  from subscribed_iff [OF assms True, of u] show ?thesis
    using True by (auto simp: snd_filter_stream_authorization)
next
  case False
  then show ?thesis
    using unauthorized_subset [of db u streams] by auto
qed

theorem unauthorized_iff_witness:
  "ex_secret \<in> set (snd (filter_stream_authorization ex_db ex_user [ex_general, ex_core, ex_secret]))
   \<and> ex_core \<notin> set (snd (filter_stream_authorization ex_db ex_user [ex_general, ex_core, ex_secret]))
   \<and> ex_general \<notin> set (snd (filter_stream_authorization ex_db ex_user [ex_general, ex_core, ex_secret]))"
proof -
  have ok: "db_ok ex_db"
    by (simp add: db_ok_def ex_defs)
  have a: "\<not> has_active_subscription ex_db ex_user ex_secret" "invite_only ex_secret"
    by (simp_all add: has_active_subscription_def get_recipient_def objects_get_def
        active_subscriptions_def ex_defs)
  have b: "has_active_subscription ex_db ex_user ex_core"
    by (simp add: has_active_subscription_def get_recipient_def objects_get_def
        active_subscriptions_def ex_defs)
  have c: "\<not> invite_only ex_general"
    by (simp add: ex_defs)
  from unauthorized_iff [OF ok, of ex_secret ex_user "[ex_general, ex_core, ex_secret]"] a
  have "ex_secret \<in> set (snd (filter_stream_authorization ex_db ex_user [ex_general, ex_core, ex_secret]))"
    by simp
  moreover from unauthorized_iff [OF ok, of ex_core ex_user "[ex_general, ex_core, ex_secret]"] b
  have "ex_core \<notin> set (snd (filter_stream_authorization ex_db ex_user [ex_general, ex_core, ex_secret]))"
    by simp
  moreover from unauthorized_iff [OF ok, of ex_general ex_user "[ex_general, ex_core, ex_secret]"] c
  have "ex_general \<notin> set (snd (filter_stream_authorization ex_db ex_user [ex_general, ex_core, ex_secret]))"
    by simp
  ultimately show ?thesis by (intro conjI)
qed

text \<open>
  C6. The authorized list is the input list without the elements whose id is the id of an
  unauthorized stream, in input order; an element whose id is not unauthorized occurs in
  it as often as in the input, so duplicates stay. The ids of the two lists together are
  the ids of the input, and when an id names one stream of the input (as a primary key
  does), the two lists together hold exactly the streams of the input.
\<close>

theorem authorized_is_input_minus_unauthorized:
  assumes "filter_stream_authorization db u streams = (authorized, unauthorized)"
  shows "authorized = filter (\<lambda>s. stream_id s \<notin> stream_id ` set unauthorized) streams
       \<and> subseq authorized streams
       \<and> (\<forall>s. stream_id s \<notin> stream_id ` set unauthorized
              \<longrightarrow> count_list authorized s = count_list streams s)
       \<and> stream_id ` (set authorized \<union> set unauthorized) = stream_id ` set streams
       \<and> (inj_on stream_id (set streams) \<longrightarrow> set authorized \<union> set unauthorized = set streams)"
proof -
  from assms have a: "authorized = fst (filter_stream_authorization db u streams)"
    and b: "unauthorized = snd (filter_stream_authorization db u streams)"
    by simp_all
  have eq: "authorized = filter (\<lambda>s. stream_id s \<notin> stream_id ` set unauthorized) streams"
    unfolding a b by (rule fst_filter_stream_authorization)
  have sub: "subseq authorized streams"
    by (subst eq) simp
  have cnt: "\<forall>s. stream_id s \<notin> stream_id ` set unauthorized
              \<longrightarrow> count_list authorized s = count_list streams s"
    by (subst eq) (simp add: count_list_filter)
  have ids: "stream_id ` (set authorized \<union> set unauthorized) = stream_id ` set streams"
    unfolding a b image_Un by (rule authorized_or_unauthorized_ids)
  have sets: "inj_on stream_id (set streams) \<longrightarrow> set authorized \<union> set unauthorized = set streams"
    unfolding a b by (simp add: authorized_or_unauthorized)
  from eq sub cnt ids sets show ?thesis
    by (intro conjI)
qed

theorem authorized_is_input_minus_unauthorized_witness:
  "[ex_general, ex_core, ex_foreign, ex_general]
     = filter (\<lambda>s. stream_id s \<notin> stream_id ` set [ex_secret, ex_secret])
         [ex_general, ex_secret, ex_core, ex_secret, ex_foreign, ex_general]
   \<and> count_list [ex_general, ex_core, ex_foreign, ex_general] ex_general
     = count_list [ex_general, ex_secret, ex_core, ex_secret, ex_foreign, ex_general] ex_general
   \<and> set [ex_general, ex_core, ex_foreign, ex_general] \<union> set [ex_secret, ex_secret]
     = set [ex_general, ex_secret, ex_core, ex_secret, ex_foreign, ex_general]"
proof -
  have "stream_id ex_general \<notin> stream_id ` set [ex_secret, ex_secret]"
    by (simp add: ex_defs)
  with authorized_is_input_minus_unauthorized [OF ex_filter_stream_authorization] ex_inj_on
  show ?thesis by blast
qed

text \<open>
  C7. \<open>filter_stream_authorization\<close> does not look at the organization: a stream that is
  not invite-only is authorized, on its own and in any list in which an id names one
  stream, and it is never unauthorized, also when it belongs to another organization
  than the user's, where \<open>access_stream_common\<close> raises \<open>JsonableError\<close>.
\<close>

theorem public_stream_authorized:
  assumes "\<not> invite_only stream"
  shows "filter_stream_authorization db u [stream] = ([stream], [])
       \<and> stream \<notin> set (snd (filter_stream_authorization db u streams))
       \<and> (stream \<in> set streams \<and> inj_on stream_id (set streams)
            \<longrightarrow> stream \<in> set (fst (filter_stream_authorization db u streams)))
       \<and> (stream_realm_id stream \<noteq> user_realm_id u
            \<longrightarrow> access_stream_common db u stream error = Inl (JsonableError error))"
proof -
  have single: "filter_stream_authorization db u [stream] = ([stream], [])"
    using assms by (simp add: filter_stream_authorization_def Let_def)
  have never: "stream \<notin> set (snd (filter_stream_authorization db u streams))"
    using assms unauthorized_invite_only [of stream db u streams] by blast
  have listed: "stream \<in> set streams \<and> inj_on stream_id (set streams)
            \<longrightarrow> stream \<in> set (fst (filter_stream_authorization db u streams))"
  proof
    assume a: "stream \<in> set streams \<and> inj_on stream_id (set streams)"
    then have "stream \<in> set (fst (filter_stream_authorization db u streams))
                 \<union> set (snd (filter_stream_authorization db u streams))"
      by (simp add: authorized_or_unauthorized)
    with never show "stream \<in> set (fst (filter_stream_authorization db u streams))"
      by simp
  qed
  have other: "stream_realm_id stream \<noteq> user_realm_id u
            \<longrightarrow> access_stream_common db u stream error = Inl (JsonableError error)"
    by (simp add: access_stream_common_def)
  from single never listed other show ?thesis
    by (intro conjI)
qed

theorem public_stream_authorized_witness:
  "filter_stream_authorization ex_db ex_user [ex_foreign] = ([ex_foreign], [])
   \<and> ex_foreign \<in> set (fst (filter_stream_authorization ex_db ex_user
        [ex_general, ex_secret, ex_core, ex_secret, ex_foreign, ex_general]))
   \<and> access_stream_common ex_db ex_user ex_foreign ''denied'' = Inl (JsonableError ''denied'')"
proof -
  have a: "\<not> invite_only ex_foreign" "stream_realm_id ex_foreign \<noteq> user_realm_id ex_user"
    "ex_foreign \<in> set [ex_general, ex_secret, ex_core, ex_secret, ex_foreign, ex_general]"
    by (simp_all add: ex_defs)
  from public_stream_authorized [OF a(1), of ex_db ex_user
      "[ex_general, ex_secret, ex_core, ex_secret, ex_foreign, ex_general]" "''denied''"]
    a(2,3) ex_inj_on
  show ?thesis by blast
qed



end
